theory Spec2Isabelle
  imports Complex_Main
begin

section \<open>JavaScript values and objects\<close>

text \<open>
  The client is JavaScript: a property of a parsed frame may hold any JSON value or be
  missing. A value is \<open>undefined\<close>, \<open>null\<close>, a boolean, a number, a string, or a
  reference to an array or object (compared by identity, as \<open>===\<close> does). JSON has no
  NaN, so on these values \<open>===\<close> is equality and \<open>!==\<close> its negation. A string is held
  as the bytes of its UTF-8 encoding.
\<close>

datatype js = JUndefined | JNull | JBool bool | JNum real | JStr string | JRef nat

text \<open>An object literal: its own properties in the order they are written.\<close>

type_synonym obj = "(string \<times> js) list"

text \<open>Reading a property: \<open>o.k\<close> is \<open>undefined\<close> when the object has no such key.\<close>

definition js_get :: "obj \<Rightarrow> string \<Rightarrow> js" where
  "js_get ob k = (case map_of ob k of None \<Rightarrow> JUndefined | Some v \<Rightarrow> v)"

definition keys :: "obj \<Rightarrow> string list" where
  "keys ob = map fst ob"

text \<open>Truthiness, as \<open>||\<close>, \<open>&&\<close> and \<open>!\<close> read a value.\<close>

fun truthy :: "js \<Rightarrow> bool" where
  "truthy JUndefined = False"
| "truthy JNull = False"
| "truthy (JBool b) = b"
| "truthy (JNum r) = (r \<noteq> 0)"
| "truthy (JStr s) = (s \<noteq> [])"
| "truthy (JRef a) = True"

text \<open>\<open>a || b\<close>\<close>

definition js_or :: "js \<Rightarrow> js \<Rightarrow> js" where
  "js_or a b = (if truthy a then a else b)"

text \<open>
  \<open>String.prototype.trim\<close> strips, from both ends of the string, the white space and
  line terminator code points: U+0009 to U+000D, U+0020, U+00A0, U+1680, U+2000 to
  U+200A, U+2028, U+2029, U+202F, U+205F, U+3000 and U+FEFF. The table holds their
  UTF-8 encodings; a lead byte never occurs inside another code point, so a match at
  either end is a whole code point.
\<close>

definition js_whitespace_utf8 :: "string list" where
  "js_whitespace_utf8 =
     [[CHR 0x09], [CHR 0x0A], [CHR 0x0B], [CHR 0x0C], [CHR 0x0D], [CHR 0x20],
      [CHR 0xC2, CHR 0xA0],
      [CHR 0xE1, CHR 0x9A, CHR 0x80],
      [CHR 0xE2, CHR 0x80, CHR 0x80], [CHR 0xE2, CHR 0x80, CHR 0x81],
      [CHR 0xE2, CHR 0x80, CHR 0x82], [CHR 0xE2, CHR 0x80, CHR 0x83],
      [CHR 0xE2, CHR 0x80, CHR 0x84], [CHR 0xE2, CHR 0x80, CHR 0x85],
      [CHR 0xE2, CHR 0x80, CHR 0x86], [CHR 0xE2, CHR 0x80, CHR 0x87],
      [CHR 0xE2, CHR 0x80, CHR 0x88], [CHR 0xE2, CHR 0x80, CHR 0x89],
      [CHR 0xE2, CHR 0x80, CHR 0x8A],
      [CHR 0xE2, CHR 0x80, CHR 0xA8], [CHR 0xE2, CHR 0x80, CHR 0xA9],
      [CHR 0xE2, CHR 0x80, CHR 0xAF],
      [CHR 0xE2, CHR 0x81, CHR 0x9F],
      [CHR 0xE3, CHR 0x80, CHR 0x80],
      [CHR 0xEF, CHR 0xBB, CHR 0xBF]]"

text \<open>Strips the entries of a table from the start of a string, as long as one matches.\<close>

function strip_leading :: "string list \<Rightarrow> string \<Rightarrow> string" where
  "strip_leading table s =
     (case find (\<lambda>w. w \<noteq> [] \<and> take (length w) s = w) table of
        None \<Rightarrow> s
      | Some w \<Rightarrow> strip_leading table (drop (length w) s))"
  by pat_completeness auto
termination
proof (relation "measure (\<lambda>(table, s). length s)")
  show "wf (measure (\<lambda>(table, s). length s))" by simp
next
  fix table :: "string list" and s w :: string
  assume "find (\<lambda>w. w \<noteq> [] \<and> take (length w) s = w) table = Some w"
  then have w: "w \<noteq> []" and t: "take (length w) s = w"
    by (auto simp: find_Some_iff)
  have "length (take (length w) s) = length w"
    by (simp only: t)
  then have "length w \<le> length s" by simp
  with w show "((table, drop (length w) s), (table, s)) \<in> measure (\<lambda>(table, s). length s)"
    by (cases w) auto
qed

declare strip_leading.simps [simp del]

text \<open>\<open>s.trim()\<close>: the start is stripped, then the end, on the reversed bytes.\<close>

definition trim :: "string \<Rightarrow> string" where
  "trim s = rev (strip_leading (map rev js_whitespace_utf8)
                   (rev (strip_leading js_whitespace_utf8 s)))"

datatype error = TypeError

section \<open>The hook useMultiLanguageWebSocket\<close>

text \<open>
  The hook's React state (\<open>socket\<close>, \<open>isConnected\<close>, \<open>messages\<close>, \<open>roomUsers\<close>,
  \<open>isReconnecting\<close>), the ref \<open>reconnectAttemptsRef.current\<close>, and its effects on the
  outside: \<open>sent\<close> logs every call \<open>ws.send(JSON.stringify(o))\<close> as the socket and the
  object \<open>o\<close>, and \<open>timers\<close> logs the delay of every
  \<open>setTimeout(() => connect(), delay)\<close>, both in call order. A socket is a handle.
\<close>

type_synonym ws = nat

record hook =
  socket :: "ws option"
  isConnected :: bool
  messages :: "obj list"
  roomUsers :: "obj list"
  isReconnecting :: bool
  reconnectAttempts :: nat
  sent :: "(ws \<times> obj) list"
  timers :: "nat list"

definition maxReconnectAttempts :: nat where
  "maxReconnectAttempts = 5"

text \<open>
  What a handler reads from the clock and the random source: \<open>fresh_id\<close> is the number
  \<open>Date.now() + Math.random()\<close>, \<open>now_iso\<close> the string \<open>new Date().toISOString()\<close>.
\<close>

record env =
  fresh_id :: real
  now_iso :: string

text \<open>\<open>ws.onopen\<close>: the join frame is sent, then the flags are set and the counter reset.\<close>

definition ws_onopen :: "string \<Rightarrow> string \<Rightarrow> ws \<Rightarrow> hook \<Rightarrow> hook" where
  "ws_onopen userId userLanguage w h =
     h\<lparr>sent := sent h @ [(w, [(''user_id'', JStr userId), (''language'', JStr userLanguage)])],
       isConnected := True,
       isReconnecting := False,
       reconnectAttempts := 0\<rparr>"

text \<open>
  The updater of \<open>setRoomUsers\<close> in the \<open>user_joined\<close> case: \<open>prev.find\<close> returns the
  first entry with the frame's \<open>user_id\<close> (an object, so truthy) or \<open>undefined\<close>.
\<close>

definition user_joined_roster :: "obj list \<Rightarrow> obj \<Rightarrow> obj list" where
  "user_joined_roster prev d =
     (case find (\<lambda>u. js_get u ''user_id'' = js_get d ''user_id'') prev of
        None \<Rightarrow> prev @ [[(''user_id'', js_get d ''user_id''), (''language'', js_get d ''language'')]]
      | Some u \<Rightarrow> prev)"

text \<open>The updater of \<open>setRoomUsers\<close> in the \<open>user_left\<close> case.\<close>

definition user_left_roster :: "obj list \<Rightarrow> obj \<Rightarrow> obj list" where
  "user_left_roster prev d = filter (\<lambda>u. js_get u ''user_id'' \<noteq> js_get d ''user_id'') prev"

text \<open>The system message both roster cases append to \<open>messages\<close>.\<close>

definition system_message :: "env \<Rightarrow> obj \<Rightarrow> obj" where
  "system_message e d =
     [(''id'', JNum (fresh_id e)),
      (''type'', JStr ''system''),
      (''content'', js_get d ''message''),
      (''timestamp'', JStr (now_iso e))]"

text \<open>The record the \<open>message\<close> case appends to \<open>messages\<close>.\<close>

definition stored_message :: "env \<Rightarrow> obj \<Rightarrow> obj" where
  "stored_message e d =
     [(''id'', JNum (fresh_id e)),
      (''user_id'', js_get d ''user_id''),
      (''content'', js_get d ''content''),
      (''original_content'', js_get d ''original_content''),
      (''language'', js_get d ''language''),
      (''is_original'', js_get d ''is_original''),
      (''timestamp'', js_or (js_get d ''timestamp'') (JStr (now_iso e)))]"

text \<open>
  \<open>ws.onmessage\<close>. The argument is the result of \<open>JSON.parse(event.data)\<close>: \<open>None\<close> when
  the parse throws or yields \<open>null\<close> (then \<open>data.type\<close> throws); both are caught and
  only logged. \<open>Some d\<close> is a parsed object (a parsed number, string, boolean or array
  has no \<open>type\<close> and takes the default case, as an object without the key does). The
  \<open>switch\<close> compares \<open>data.type\<close> with \<open>===\<close>; \<open>connected\<close>, \<open>typing\<close> and the default
  case change nothing.
\<close>

definition ws_onmessage :: "env \<Rightarrow> obj option \<Rightarrow> hook \<Rightarrow> hook" where
  "ws_onmessage e dat h =
     (case dat of
        None \<Rightarrow> h
      | Some d \<Rightarrow>
          if js_get d ''type'' = JStr ''connected'' then h
          else if js_get d ''type'' = JStr ''message'' then
            h\<lparr>messages := messages h @ [stored_message e d]\<rparr>
          else if js_get d ''type'' = JStr ''user_joined'' then
            h\<lparr>roomUsers := user_joined_roster (roomUsers h) d,
              messages := messages h @ [system_message e d]\<rparr>
          else if js_get d ''type'' = JStr ''user_left'' then
            h\<lparr>roomUsers := user_left_roster (roomUsers h) d,
              messages := messages h @ [system_message e d]\<rparr>
          else if js_get d ''type'' = JStr ''typing'' then h
          else h)"

text \<open>
  \<open>ws.onclose\<close> with \<open>event.code\<close>: the delay \<open>2000 * reconnectAttemptsRef.current\<close> is
  read after the increment.
\<close>

definition ws_onclose :: "nat \<Rightarrow> hook \<Rightarrow> hook" where
  "ws_onclose code h =
     (let h1 = h\<lparr>isConnected := False, socket := None\<rparr> in
      if code \<noteq> 1000 \<and> reconnectAttempts h1 < maxReconnectAttempts then
        h1\<lparr>isReconnecting := True,
           reconnectAttempts := reconnectAttempts h1 + 1,
           timers := timers h1 @ [2000 * (reconnectAttempts h1 + 1)]\<rparr>
      else h1)"

definition ws_onerror :: "hook \<Rightarrow> hook" where
  "ws_onerror h = h\<lparr>isConnected := False\<rparr>"


text \<open>
  \<open>sendMessage(content)\<close> for a string \<open>content\<close>; \<open>now\<close> is
  \<open>new Date().toISOString()\<close>. The result is the returned boolean and the hook after
  the call.
\<close>

definition sendMessage :: "string \<Rightarrow> string \<Rightarrow> hook \<Rightarrow> bool \<times> hook" where
  "sendMessage content now h =
     (case socket h of
        None \<Rightarrow> (False, h)
      | Some w \<Rightarrow>
          if isConnected h then
            (True,
             h\<lparr>sent := sent h @
               [(w, [(''type'', JStr ''chat''), (''content'', JStr content), (''timestamp'', JStr now)])]\<rparr>)
          else (False, h))"

text \<open>The socket's events, and the hook run over a trace of them.\<close>

datatype ws_event = Open ws | Message env "obj option" | Close nat | Error

fun step :: "string \<Rightarrow> string \<Rightarrow> hook \<Rightarrow> ws_event \<Rightarrow> hook" where
  "step userId userLanguage h (Open w) = ws_onopen userId userLanguage w h"
| "step userId userLanguage h (Message e dat) = ws_onmessage e dat h"
| "step userId userLanguage h (Close code) = ws_onclose code h"
| "step userId userLanguage h Error = ws_onerror h"

definition run :: "string \<Rightarrow> string \<Rightarrow> ws_event list \<Rightarrow> hook \<Rightarrow> hook" where
  "run userId userLanguage evs h = foldl (step userId userLanguage) h evs"

text \<open>The hook as \<open>useState\<close> and \<open>useRef\<close> initialise it.\<close>

definition initial :: hook where
  "initial = \<lparr>socket = None, isConnected = False, messages = [], roomUsers = [],
     isReconnecting = False, reconnectAttempts = 0, sent = [], timers = []\<rparr>"

section \<open>MultiLanguageDashboard\<close>

text \<open>
  As shipped, the room view of this component reads the identifiers \<open>latency\<close> and
  \<open>reconnectAttempts\<close>, which it neither declares nor imports, so rendering it throws a
  ReferenceError and only the language setup view renders. The effects and handlers of
  the component are modelled below for every state they can be given, so what is proved
  of them does not depend on whether the room view renders.
\<close>

text \<open>\<open>user?.username || 'anonymous'\<close>, with \<open>None\<close> for a missing user or name.\<close>

definition current_user :: "string option \<Rightarrow> string" where
  "current_user username =
     (case username of None \<Rightarrow> ''anonymous'' | Some u \<Rightarrow> if u = [] then ''anonymous'' else u)"

text \<open>
  The welcome message the dashboard starts with; \<open>now\<close> is
  \<open>new Date().toISOString()\<close>.
\<close>

definition welcome_message :: "string option \<Rightarrow> string \<Rightarrow> obj" where
  "welcome_message username now =
     [(''id'', JStr ''welcome-1''),
      (''content'', JStr (''Welcome '' @
          (case username of None \<Rightarrow> ''User'' | Some u \<Rightarrow> if u = [] then ''User'' else u) @
          ''! Set up your languages to start multi-language conversations.'')),
      (''sender_type'', JStr ''bot''),
      (''speaker_name'', JStr ''AI Assistant''),
      (''timestamp'', JStr now),
      (''emotion'', JStr ''neutral'')]"

text \<open>
  The conversion of one hook message in the sync effect. \<open>stamp\<close> is the text of
  \<open>${Date.now()}-${Math.random()}\<close> read for this element, \<open>username\<close> is
  \<open>user?.username\<close>.
\<close>

definition format_message :: "string option \<Rightarrow> string \<Rightarrow> obj \<Rightarrow> obj" where
  "format_message username stamp msg =
     [(''id'', js_or (js_get msg ''id'') (JStr (''ws-'' @ stamp))),
      (''content'', js_get msg ''content''),
      (''sender_type'',
         if js_get msg ''type'' = JStr ''system'' then JStr ''system''
         else if js_get msg ''user_id'' = JStr (current_user username) then JStr ''user''
         else JStr ''other''),
      (''speaker_name'', js_or (js_get msg ''user_id'') (JStr ''Unknown'')),
      (''timestamp'', js_get msg ''timestamp''),
      (''original_content'', js_get msg ''original_content''),
      (''language'', js_get msg ''language''),
      (''is_original'', js_get msg ''is_original''),
      (''emotion'', JStr ''neutral'')]"

definition format_messages :: "string option \<Rightarrow> (nat \<Rightarrow> string) \<Rightarrow> obj list \<Rightarrow> obj list" where
  "format_messages username stamp wsMessages =
     map (\<lambda>(i, msg). format_message username (stamp i) msg) (enumerate 0 wsMessages)"

text \<open>
  \<open>m.id.startsWith('welcome')\<close>: only a string has the method; on \<open>undefined\<close> and
  \<open>null\<close> the property read throws, on a number, a boolean or a parsed object the
  call of \<open>undefined\<close> throws.
\<close>

fun id_startsWith_welcome :: "js \<Rightarrow> error + bool" where
  "id_startsWith_welcome (JStr s) = Inr (take 7 s = ''welcome'')"
| "id_startsWith_welcome v = Inl TypeError"

text \<open>\<open>prev.filter(m => !m.id.startsWith('welcome'))\<close>, left to right.\<close>

fun nonWelcomeMessages :: "obj list \<Rightarrow> error + obj list" where
  "nonWelcomeMessages [] = Inr []"
| "nonWelcomeMessages (m # ms) =
     (case id_startsWith_welcome (js_get m ''id'') of
        Inl err \<Rightarrow> Inl err
      | Inr b \<Rightarrow>
          (case nonWelcomeMessages ms of
             Inl err \<Rightarrow> Inl err
           | Inr r \<Rightarrow> Inr (if b then r else m # r)))"

text \<open>
  The effect that syncs the hook's \<open>messages\<close> (\<open>wsMessages\<close>) into the dashboard's:
  the dashboard's \<open>messages\<close> after the effect and its updater have run, or the
  error the updater throws.
\<close>

definition sync_messages ::
  "string option \<Rightarrow> (nat \<Rightarrow> string) \<Rightarrow> obj list \<Rightarrow> obj list \<Rightarrow> error + obj list" where
  "sync_messages username stamp wsMessages prev =
     (if length wsMessages > 0 then
        (case nonWelcomeMessages prev of
           Inl err \<Rightarrow> Inl err
         | Inr nw \<Rightarrow> Inr (nw @ format_messages username stamp wsMessages))
      else Inr prev)"

text \<open>
  The dashboard's \<open>messages\<close> over time. Between two runs of an effect the hook may
  handle any number of socket events (\<open>Ws\<close>). \<open>UserEffect\<close> is the effect on \<open>[user]\<close>,
  which sets \<open>messages\<close> to the welcome message; \<open>SyncEffect\<close> is the effect on
  \<open>[wsMessages, user]\<close>. Each reads \<open>user?.username\<close> as it is at that render. An error
  thrown by an updater unmounts the component: the state stays the error.
\<close>

datatype dash_event =
    Ws ws_event
  | UserEffect "string option" string
  | SyncEffect "string option" "nat \<Rightarrow> string"

fun dash_step ::
  "string \<Rightarrow> string \<Rightarrow> (error + obj list) \<times> hook \<Rightarrow> dash_event \<Rightarrow> (error + obj list) \<times> hook" where
  "dash_step userId userLanguage (d, h) (Ws ev) = (d, step userId userLanguage h ev)"
| "dash_step userId userLanguage (d, h) (UserEffect username now) =
     (case d of Inl err \<Rightarrow> (Inl err, h) | Inr prev \<Rightarrow> (Inr [welcome_message username now], h))"
| "dash_step userId userLanguage (d, h) (SyncEffect username stamp) =
     (case d of Inl err \<Rightarrow> (Inl err, h)
      | Inr prev \<Rightarrow> (sync_messages username stamp (messages h) prev, h))"

definition dash_run ::
  "string \<Rightarrow> string \<Rightarrow> dash_event list \<Rightarrow> (error + obj list) \<times> hook \<Rightarrow> (error + obj list) \<times> hook" where
  "dash_run userId userLanguage evs s = foldl (dash_step userId userLanguage) s evs"

text \<open>The dashboard as \<open>useState([])\<close> and the hook initialise it.\<close>

definition dash_initial :: "(error + obj list) \<times> hook" where
  "dash_initial = (Inr [], initial)"

text \<open>
  The dashboard's own state that \<open>sendTextMessage\<close> can reach: its \<open>messages\<close>,
  \<open>isInRoom\<close>, and the objects passed to \<open>addNotification\<close> (of the hook
  useNotifications), in call order.
\<close>

record dashboard =
  dash_messages :: "obj list"
  isInRoom :: bool
  notified :: "obj list"

definition sendTextMessage :: "string \<Rightarrow> string \<Rightarrow> dashboard \<times> hook \<Rightarrow> dashboard \<times> hook" where
  "sendTextMessage txt now dh =
     (case dh of (d, h) \<Rightarrow>
        if trim txt = [] \<or> \<not> isInRoom d then (d, h)
        else
          (case sendMessage txt now h of (success, h1) \<Rightarrow>
             if \<not> success then
               (d\<lparr>notified := notified d @
                  [[(''type'', JStr ''error''),
                    (''title'', JStr ''Message Failed''),
                    (''message'', JStr ''Could not send message. Please check your connection.''),
                    (''duration'', JNum 3000),
                    (''autoDismiss'', JBool True)]]\<rparr>, h1)
             else (d, h1)))"

section \<open>SimpleMultiLanguageDashboard\<close>

text \<open>
  The dashboard renders the hook's \<open>messages\<close>. The line \<open>Original: ...\<close> is rendered
  for a message when \<open>message.original_content && message.original_content !==
  message.content\<close> is true.
\<close>

definition shows_original_line :: "obj \<Rightarrow> bool" where
  "shows_original_line m =
     (truthy (js_get m ''original_content'') \<and>
      js_get m ''original_content'' \<noteq> js_get m ''content'')"


section \<open>The server's chat message handling\<close>

text \<open>
  Modelled from the spec: the Room Controller's chat message handling and the outbound
  \<open>message\<close> frame; the server is not among the source files. For each language L of
  a participant: if L is the event's original language the derived text is the original
  text and \<open>is_original\<close> is true; otherwise the Translation Adapter is called, and its
  failure delivers the original text flagged \<open>translation_failed\<close>. Every participant
  receives the derived message of its declared language.
\<close>

record chat_event =
  sender_id :: string
  original_text :: string
  original_language :: string
  sent_at :: string

record derived_message =
  target_language :: string
  translated_text :: string
  is_original :: bool
  translation_failed :: bool

record participant =
  participant_id :: string
  declared_language :: string

text \<open>
  Modelled from the spec: step (3) of the chat message handling algorithm, for one
  target language \<open>l\<close>; \<open>translate\<close> is the Translation Adapter, \<open>None\<close> its failure.
\<close>

definition derive ::
  "(string \<Rightarrow> string \<Rightarrow> string \<Rightarrow> string option) \<Rightarrow> chat_event \<Rightarrow> string \<Rightarrow> derived_message" where
  "derive translate ev l =
     (if l = original_language ev then
        \<lparr>target_language = l, translated_text = original_text ev,
         is_original = True, translation_failed = False\<rparr>
      else
        (case translate (original_text ev) (original_language ev) l of
           Some t \<Rightarrow>
             \<lparr>target_language = l, translated_text = t,
              is_original = False, translation_failed = False\<rparr>
         | None \<Rightarrow>
             \<lparr>target_language = l, translated_text = original_text ev,
              is_original = False, translation_failed = True\<rparr>))"

text \<open>
  Modelled from the spec: the outbound frame \<open>{ type: "message", sender_id, content,
  original_content, language, is_original, sequence, timestamp, translation_failed? }\<close>
  of a derived message.
\<close>

definition message_frame :: "nat \<Rightarrow> chat_event \<Rightarrow> derived_message \<Rightarrow> obj" where
  "message_frame seq ev dm =
     [(''type'', JStr ''message''),
      (''sender_id'', JStr (sender_id ev)),
      (''content'', JStr (translated_text dm)),
      (''original_content'', JStr (original_text ev)),
      (''language'', JStr (target_language dm)),
      (''is_original'', JBool (is_original dm)),
      (''sequence'', JNum (of_nat seq)),
      (''timestamp'', JStr (sent_at ev))] @
     (if translation_failed dm then [(''translation_failed'', JBool True)] else [])"

text \<open>
  Modelled from the spec: step (4), the fan-out; a participant receives the derived
  message of its declared language.
\<close>

definition frame_for ::
  "(string \<Rightarrow> string \<Rightarrow> string \<Rightarrow> string option) \<Rightarrow> nat \<Rightarrow> chat_event \<Rightarrow> participant \<Rightarrow> obj" where
  "frame_for translate seq ev p = message_frame seq ev (derive translate ev (declared_language p))"

text \<open>
  Modelled from the spec: the \<open>message\<close> frames one participant receives while the Room
  Controller handles a list of chat events one at a time, step (1) giving them the
  sequence numbers \<open>n\<close>, \<open>n + 1\<close>, ... in the order of handling. \<open>echo\<close> is the policy
  the spec leaves open: whether the sender receives its own message.
\<close>

fun received ::
  "bool \<Rightarrow> (string \<Rightarrow> string \<Rightarrow> string \<Rightarrow> string option) \<Rightarrow> nat \<Rightarrow> chat_event list \<Rightarrow> participant \<Rightarrow> obj list" where
  "received echo translate n [] p = []"
| "received echo translate n (ev # evs) p =
     (if echo \<or> sender_id ev \<noteq> participant_id p then [frame_for translate n ev p] else []) @
     received echo translate (Suc n) evs p"

section \<open>Observations and scenarios\<close>

text \<open>
  The \<open>message\<close> frames among the events of a trace, in order, each with what its
  handler reads from the clock; and the records of the hook that are not system
  messages.
\<close>

fun message_frames_of :: "ws_event list \<Rightarrow> (env \<times> obj) list" where
  "message_frames_of [] = []"
| "message_frames_of (Message e (Some d) # evs) =
     (if js_get d ''type'' = JStr ''message'' then [(e, d)] else []) @ message_frames_of evs"
| "message_frames_of (ev # evs) = message_frames_of evs"

definition chat_records :: "hook \<Rightarrow> obj list" where
  "chat_records h = filter (\<lambda>m. js_get m ''type'' \<noteq> JStr ''system'') (messages h)"

text \<open>
  \<open>Date.now()\<close> counts the milliseconds since 1970 and \<open>Math.random()\<close> is not negative:
  the number a handler reads as id is positive.
\<close>

fun positive_id :: "dash_event \<Rightarrow> bool" where
  "positive_id (Ws (Message e dat)) = (0 < fresh_id e)"
| "positive_id ev = True"

text \<open>The socket events for which the hook appends a record to its \<open>messages\<close>.\<close>

fun stores_record :: "dash_event \<Rightarrow> bool" where
  "stores_record (Ws (Message e (Some d))) =
     (js_get d ''type'' = JStr ''message'' \<or> js_get d ''type'' = JStr ''user_joined'' \<or>
      js_get d ''type'' = JStr ''user_left'')"
| "stores_record ev = False"

text \<open>A record whose id is a number other than 0, as the hook gives it.\<close>

definition has_numeric_id :: "obj \<Rightarrow> bool" where
  "has_numeric_id m = (case js_get m ''id'' of JNum r \<Rightarrow> r \<noteq> 0 | v \<Rightarrow> False)"

text \<open>
  What holds of the dashboard's \<open>messages\<close> at every moment: it is empty, or the welcome
  message, or the conversion of the first records of the hook.
\<close>

definition dash_inv :: "(error + obj list) \<times> hook \<Rightarrow> bool" where
  "dash_inv s =
     (list_all has_numeric_id (messages (snd s)) \<and>
      (case fst s of
         Inl err \<Rightarrow> True
       | Inr ms \<Rightarrow>
           (\<exists>username now. ms = [welcome_message username now]) \<or>
           (\<exists>username stamp k. k \<le> length (messages (snd s)) \<and>
              ms = format_messages username stamp (take k (messages (snd s))))))"


text \<open>The frames written to one socket, in order.\<close>

definition frames_on :: "ws \<Rightarrow> hook \<Rightarrow> obj list" where
  "frames_on w h = map snd (filter (\<lambda>p. fst p = w) (sent h))"

text \<open>A close with a code other than 1000, and an event that is not an open.\<close>

fun abnormal_close :: "ws_event \<Rightarrow> bool" where
  "abnormal_close (Close code) = (code \<noteq> 1000)"
| "abnormal_close ev = False"

fun no_open :: "ws_event \<Rightarrow> bool" where
  "no_open (Open w) = False"
| "no_open ev = True"

text \<open>A hook whose socket 0 is open.\<close>

definition connected_hook :: hook where
  "connected_hook = initial\<lparr>socket := Some 0, isConnected := True\<rparr>"

text \<open>Two \<open>message\<close> frames as the server of the spec sends them to a Spanish reader.\<close>

definition frame1 :: obj where
  "frame1 = [(''type'', JStr ''message''), (''user_id'', JStr ''bob''), (''content'', JStr ''Hola''),
     (''original_content'', JStr ''Hello''), (''language'', JStr ''es''), (''is_original'', JBool False),
     (''sequence'', JNum 1), (''timestamp'', JStr ''2024-01-01T00:00:01.000Z'')]"

definition frame2 :: obj where
  "frame2 = [(''type'', JStr ''message''), (''user_id'', JStr ''bob''), (''content'', JStr ''Adios''),
     (''original_content'', JStr ''Bye''), (''language'', JStr ''es''), (''is_original'', JBool False),
     (''sequence'', JNum 2), (''timestamp'', JStr ''2024-01-01T00:00:02.000Z'')]"

definition env1 :: env where
  "env1 = \<lparr>fresh_id = 1704067201000.25, now_iso = ''2024-01-01T00:00:01.100Z''\<rparr>"

definition env2 :: env where
  "env2 = \<lparr>fresh_id = 1704067202000.5, now_iso = ''2024-01-01T00:00:02.100Z''\<rparr>"

definition after_frame1 :: hook where
  "after_frame1 = ws_onmessage env1 (Some frame1) initial"

definition after_frame2 :: hook where
  "after_frame2 = ws_onmessage env2 (Some frame2) after_frame1"

text \<open>
  The dashboard of alice: the welcome effect, two frames handled by the hook, then one
  run of the sync effect; and the same with a run of the sync effect after each frame.
\<close>

definition trace_batched :: "dash_event list" where
  "trace_batched =
     [UserEffect (Some ''alice'') ''2024-01-01T00:00:00.000Z'',
      Ws (Message env1 (Some frame1)), Ws (Message env2 (Some frame2)),
      SyncEffect (Some ''alice'') (\<lambda>i. ''0-0'')]"

definition trace_each :: "dash_event list" where
  "trace_each =
     [UserEffect (Some ''alice'') ''2024-01-01T00:00:00.000Z'',
      Ws (Message env1 (Some frame1)), SyncEffect (Some ''alice'') (\<lambda>i. ''0-0''),
      Ws (Message env2 (Some frame2)), SyncEffect (Some ''alice'') (\<lambda>i. ''0-0'')]"

text \<open>The dashboard's \<open>messages\<close> before any frame: the welcome message.\<close>

definition dashboard_start :: "obj list" where
  "dashboard_start = [welcome_message (Some ''alice'') ''2024-01-01T00:00:00.000Z'']"



text \<open>Two chat events of p1 and an English and a Spanish reader.\<close>

definition bye_event :: chat_event where
  "bye_event = \<lparr>sender_id = ''p1'', original_text = ''Bye'', original_language = ''en'',
     sent_at = ''2024-01-01T00:00:02.000Z''\<rparr>"

definition reader_es :: participant where
  "reader_es = \<lparr>participant_id = ''p2'', declared_language = ''es''\<rparr>"

definition to_spanish :: "string \<Rightarrow> string \<Rightarrow> string \<Rightarrow> string option" where
  "to_spanish t src tgt = (if t = ''Hello'' then Some ''Hola'' else Some ''Adios'')"

text \<open>A roster with one entry, and the frames of bob joining and leaving.\<close>

definition roster_alice :: hook where
  "roster_alice = initial\<lparr>roomUsers := [[(''user_id'', JStr ''alice''), (''language'', JStr ''en'')]]\<rparr>"

definition bob_joined :: obj where
  "bob_joined = [(''type'', JStr ''user_joined''), (''user_id'', JStr ''bob''), (''language'', JStr ''es''),
     (''message'', JStr ''bob joined the room'')]"

definition alice_left :: obj where
  "alice_left = [(''type'', JStr ''user_left''), (''user_id'', JStr ''alice''),
     (''message'', JStr ''alice left the room'')]"

definition hello_event :: chat_event where
  "hello_event = \<lparr>sender_id = ''p1'', original_text = ''Hello'', original_language = ''en'',
     sent_at = ''2024-01-01T00:00:01.000Z''\<rparr>"

definition reader_en :: participant where
  "reader_en = \<lparr>participant_id = ''p3'', declared_language = ''en''\<rparr>"

text \<open>
  What the socket of the Spanish reader delivers while p1 says Hello and Bye: the two
  \<open>message\<close> frames of the server with the sequence numbers 0 and 1, a \<open>user_joined\<close>
  frame between them.
\<close>

definition spanish_trace :: "ws_event list" where
  "spanish_trace =
     [Message env1 (Some (frame_for to_spanish 0 hello_event reader_es)),
      Message env1 (Some bob_joined),
      Message env2 (Some (frame_for to_spanish 1 bye_event reader_es))]"

section \<open>Basic facts\<close>

lemma js_get_simps [simp]:
  "js_get [] k = JUndefined"
  "js_get ((k', v) # ob) k = (if k' = k then v else js_get ob k)"
  by (simp_all add: js_get_def)

lemma error_TypeError: "(err :: error) = TypeError"
  by (cases err) simp

lemma run_Nil [simp]: "run u l [] h = h"
  by (simp add: run_def)

lemma run_Cons [simp]: "run u l (ev # evs) h = run u l evs (step u l h ev)"
  by (simp add: run_def)

lemma find_append_cases:
  "find P (xs @ ys) = (case find P xs of None \<Rightarrow> find P ys | Some x \<Rightarrow> Some x)"
  by (induction xs) simp_all

section \<open>The sync effect of MultiLanguageDashboard\<close>

text \<open>
  Where the filter passes, the updater keeps every entry merged before and appends the
  whole of \<open>wsMessages\<close> after them.
\<close>

lemma sync_messages_appends_all:
  assumes "wsMessages \<noteq> []" and "nonWelcomeMessages prev = Inr nw"
  shows "sync_messages username stamp wsMessages prev
           = Inr (nw @ format_messages username stamp wsMessages)"
  using assms by (simp add: sync_messages_def)

text \<open>An entry with a numeric id makes the filter throw.\<close>

lemma nonWelcomeMessages_numeric_id:
  assumes "m \<in> set prev" and "js_get m ''id'' = JNum r"
  shows "nonWelcomeMessages prev = Inl TypeError"
  using assms
proof (induction prev)
  case Nil
  then show ?case by simp
next
  case (Cons x xs)
  then show ?case
    by (cases "id_startsWith_welcome (js_get x ''id'')"; cases "x = m";
        auto simp: error_TypeError split: sum.splits)
qed

text \<open>
  Two frames with a run of the sync effect after each: the first run replaces the
  welcome message by the first frame, whose id is the number the hook gave it; the second
  run throws a TypeError in the updater, at \<open>m.id.startsWith\<close> on that number.
\<close>

lemma sync_second_frame_throws:
  "sync_messages (Some ''alice'') (\<lambda>i. ''0-0'') (messages after_frame1) dashboard_start
     = Inr [format_message (Some ''alice'') ''0-0'' (stored_message env1 frame1)] \<and>
   sync_messages (Some ''alice'') (\<lambda>i. ''0-0'') (messages after_frame2)
     [format_message (Some ''alice'') ''0-0'' (stored_message env1 frame1)] = Inl TypeError"
  by (simp add: sync_messages_def after_frame1_def after_frame2_def ws_onmessage_def frame1_def frame2_def
      initial_def dashboard_start_def welcome_message_def format_messages_def format_message_def
      stored_message_def js_or_def env1_def env2_def enumerate_eq_zip current_user_def)

lemma has_numeric_id_format_message:
  "has_numeric_id m \<Longrightarrow> has_numeric_id (format_message username stamp m)"
  by (auto simp: has_numeric_id_def format_message_def js_or_def split: js.splits)

lemma format_messages_nth:
  "format_messages username stamp xs
     = map (\<lambda>i. format_message username (stamp i) (xs ! i)) [0..<length xs]"
  by (rule nth_equalityI) (simp_all add: format_messages_def enumerate_eq_zip)

lemma numeric_ids_format_messages:
  "list_all has_numeric_id xs \<Longrightarrow> list_all has_numeric_id (format_messages username stamp xs)"
  by (simp add: format_messages_nth list_all_iff has_numeric_id_format_message)

lemma nonWelcomeMessages_numeric_ids:
  assumes "xs \<noteq> []" and "list_all has_numeric_id xs"
  shows "nonWelcomeMessages xs = Inl TypeError"
proof -
  from assms obtain m where m: "m \<in> set xs" "has_numeric_id m"
    by (cases xs) auto
  then obtain r where "js_get m ''id'' = JNum r"
    by (auto simp: has_numeric_id_def split: js.splits)
  with m(1) show ?thesis by (rule nonWelcomeMessages_numeric_id)
qed

lemma nonWelcomeMessages_welcome:
  "nonWelcomeMessages [welcome_message username now] = Inr []"
  by (simp add: welcome_message_def)

text \<open>A socket event appends at most one record to the hook's \<open>messages\<close>.\<close>

lemma messages_step:
  "messages (step u l h ev)
     = messages h @ (if stores_record (Ws ev) then [last (messages (step u l h ev))] else [])"
proof (cases ev)
  case (Message e dat)
  then show ?thesis
    by (cases dat) (auto simp: ws_onmessage_def)
qed (simp_all add: ws_onopen_def ws_onclose_def ws_onerror_def Let_def)

lemma numeric_ids_step:
  assumes "positive_id (Ws ev)" and "list_all has_numeric_id (messages h)"
  shows "list_all has_numeric_id (messages (step u l h ev))"
proof (cases ev)
  case (Message e dat)
  with assms show ?thesis
    by (cases dat)
       (auto simp: ws_onmessage_def has_numeric_id_def stored_message_def system_message_def)
qed (use assms in \<open>simp_all add: ws_onopen_def ws_onclose_def ws_onerror_def Let_def\<close>)

lemma dash_inv_error:
  "list_all has_numeric_id (messages h) \<Longrightarrow> dash_inv (Inl err, h)"
  by (simp add: dash_inv_def)

lemma dash_inv_welcome:
  "list_all has_numeric_id (messages h) \<Longrightarrow> dash_inv (Inr [welcome_message username now], h)"
  unfolding dash_inv_def by (simp, blast)

lemma dash_inv_converted:
  assumes "list_all has_numeric_id (messages h)" and "k \<le> length (messages h)"
  shows "dash_inv (Inr (format_messages username stamp (take k (messages h))), h)"
proof -
  have "\<exists>username' stamp' k'. k' \<le> length (messages h) \<and>
          format_messages username stamp (take k (messages h))
            = format_messages username' stamp' (take k' (messages h))"
    using assms(2) by blast
  with assms(1) show ?thesis by (simp add: dash_inv_def)
qed

lemma dash_inv_initial: "dash_inv dash_initial"
proof -
  have "dash_inv (Inr (format_messages None (\<lambda>i. []) (take 0 (messages initial))), initial)"
    by (rule dash_inv_converted) (simp_all add: initial_def)
  then show ?thesis
    by (simp add: dash_initial_def format_messages_def)
qed

lemma dash_inv_step:
  assumes inv: "dash_inv (d, h)" and pos: "positive_id ev"
  shows "dash_inv (dash_step u l (d, h) ev)"
proof (cases ev)
  case (Ws wev)
  have ids: "list_all has_numeric_id (messages (step u l h wev))"
    using inv pos Ws by (simp add: dash_inv_def numeric_ids_step)
  obtain extra where extra: "messages (step u l h wev) = messages h @ extra"
    using messages_step [of u l h wev] by metis
  show ?thesis
  proof (cases d)
    case (Inl err)
    with Ws show ?thesis by (simp add: dash_inv_error [OF ids])
  next
    case (Inr ms)
    from inv Inr consider
        (greeting) username now where "ms = [welcome_message username now]"
      | (converted) username stamp k where "k \<le> length (messages h)"
          "ms = format_messages username stamp (take k (messages h))"
      by (auto simp: dash_inv_def)
    then show ?thesis
    proof cases
      case greeting
      with Ws Inr show ?thesis by (simp add: dash_inv_welcome [OF ids])
    next
      case converted
      have k: "k \<le> length (messages (step u l h wev))"
        using converted(1) extra by simp
      have "ms = format_messages username stamp (take k (messages (step u l h wev)))"
        using converted extra by simp
      with Ws Inr show ?thesis
        by (simp add: dash_inv_converted [OF ids k])
    qed
  qed
next
  case (UserEffect username now)
  have ids: "list_all has_numeric_id (messages h)"
    using inv by (simp add: dash_inv_def)
  show ?thesis
    using UserEffect by (cases d) (simp_all add: dash_inv_error [OF ids] dash_inv_welcome [OF ids])
next
  case (SyncEffect username stamp)
  have ids: "list_all has_numeric_id (messages h)"
    using inv by (simp add: dash_inv_def)
  show ?thesis
  proof (cases d)
    case (Inl err)
    with SyncEffect show ?thesis by (simp add: dash_inv_error [OF ids])
  next
    case (Inr ms)
    show ?thesis
    proof (cases "messages h = []")
      case True
      with inv Inr SyncEffect show ?thesis
        by (simp add: sync_messages_def)
    next
      case False
      have all: "dash_inv (Inr (format_messages username stamp (messages h)), h)"
        using dash_inv_converted [OF ids le_refl, of username stamp] by simp
      from inv Inr consider
          (greeting) username' now where "ms = [welcome_message username' now]"
        | (converted) username' stamp' k where "k \<le> length (messages h)"
            "ms = format_messages username' stamp' (take k (messages h))"
        by (auto simp: dash_inv_def)
      then show ?thesis
      proof cases
        case greeting
        then have "sync_messages username stamp (messages h) ms
                     = Inr (format_messages username stamp (messages h))"
          using sync_messages_appends_all [OF False nonWelcomeMessages_welcome] by simp
        with SyncEffect Inr all show ?thesis by simp
      next
        case converted
        show ?thesis
        proof (cases "k = 0")
          case True
          with converted have "ms = []" by (simp add: format_messages_def)
          then have "sync_messages username stamp (messages h) ms
                       = Inr (format_messages username stamp (messages h))"
            using False by (simp add: sync_messages_def)
          with SyncEffect Inr all show ?thesis by simp
        next
          case k: False
          have "ms \<noteq> []"
            using converted k False by (simp add: format_messages_nth)
          moreover have "list_all has_numeric_id (take k (messages h))"
            using ids by (auto simp: list_all_iff dest: in_set_takeD)
          then have "list_all has_numeric_id ms"
            using converted(2) by (simp add: numeric_ids_format_messages)
          ultimately have "nonWelcomeMessages ms = Inl TypeError"
            by (rule nonWelcomeMessages_numeric_ids)
          then have "sync_messages username stamp (messages h) ms = Inl TypeError"
            using False by (simp add: sync_messages_def)
          with SyncEffect Inr show ?thesis by (simp add: dash_inv_error [OF ids])
        qed
      qed
    qed
  qed
qed

lemma dash_run_Nil [simp]: "dash_run u l [] s = s"
  by (simp add: dash_run_def)

lemma dash_run_Cons [simp]: "dash_run u l (ev # evs) s = dash_run u l evs (dash_step u l s ev)"
  by (simp add: dash_run_def)

lemma dash_inv_run:
  "dash_inv s \<Longrightarrow> \<forall>ev \<in> set evs. positive_id ev \<Longrightarrow> dash_inv (dash_run u l evs s)"
proof (induction evs arbitrary: s)
  case Nil
  then show ?case by simp
next
  case (Cons ev evs)
  obtain d h where s: "s = (d, h)" by (cases s)
  have "dash_inv (dash_step u l s ev)"
    using Cons.prems unfolding s by (simp add: dash_inv_step)
  with Cons show ?case by simp
qed

lemma length_messages_dash_step:
  "length (messages (snd (dash_step u l s ev)))
     = length (messages (snd s)) + (if stores_record ev then 1 else 0)"
proof (cases s)
  case (Pair d h)
  show ?thesis
  proof (cases ev)
    case (Ws wev)
    have "length (messages (step u l h wev))
            = length (messages h) + (if stores_record (Ws wev) then 1 else 0)"
      by (subst messages_step) simp
    with Pair Ws show ?thesis by simp
  next
    case (UserEffect username now)
    with Pair show ?thesis by (cases d) simp_all
  next
    case (SyncEffect username stamp)
    with Pair show ?thesis by (cases d) simp_all
  qed
qed

lemma length_messages_dash_run:
  "length (messages (snd (dash_run u l evs s)))
     = length (messages (snd s)) + length (filter stores_record evs)"
proof (induction evs arbitrary: s)
  case Nil
  then show ?case by simp
next
  case (Cons ev evs)
  then show ?case by (simp add: length_messages_dash_step)
qed

text \<open>
  C1: after any sequence of incoming frames, with the effects of the dashboard run at
  any moments between them, no frame is more than once in the dashboard's \<open>messages\<close>.
  The hook holds one record for each frame it stored; the dashboard's list is the
  welcome message, or the conversions of records of the hook at positions of which none
  occurs twice; or the updater has thrown a TypeError (on the numeric id of a record
  merged before) and there is no list.
\<close>

theorem dashboard_holds_each_frame_once:
  assumes "\<forall>ev \<in> set evs. positive_id ev"
  shows "length (messages (snd (dash_run u l evs dash_initial))) = length (filter stores_record evs) \<and>
    (case fst (dash_run u l evs dash_initial) of
       Inl err \<Rightarrow> err = TypeError
     | Inr ms \<Rightarrow>
         (\<exists>username now. ms = [welcome_message username now]) \<or>
         (\<exists>username stamp ixs. distinct ixs \<and>
            (\<forall>i \<in> set ixs. i < length (messages (snd (dash_run u l evs dash_initial)))) \<and>
            ms = map (\<lambda>i. format_message username (stamp i)
                        (messages (snd (dash_run u l evs dash_initial)) ! i)) ixs))"
proof -
  let ?s = "dash_run u l evs dash_initial"
  have len: "length (messages (snd ?s)) = length (filter stores_record evs)"
    by (simp add: length_messages_dash_run dash_initial_def initial_def)
  have inv: "dash_inv ?s"
    using dash_inv_initial assms by (rule dash_inv_run)
  have "case fst ?s of
       Inl err \<Rightarrow> err = TypeError
     | Inr ms \<Rightarrow>
         (\<exists>username now. ms = [welcome_message username now]) \<or>
         (\<exists>username stamp ixs. distinct ixs \<and>
            (\<forall>i \<in> set ixs. i < length (messages (snd ?s))) \<and>
            ms = map (\<lambda>i. format_message username (stamp i) (messages (snd ?s) ! i)) ixs)"
  proof (cases "fst ?s")
    case (Inl err)
    then show ?thesis by (simp add: error_TypeError)
  next
    case (Inr ms)
    from inv Inr consider
        (greeting) username now where "ms = [welcome_message username now]"
      | (converted) username stamp k where "k \<le> length (messages (snd ?s))"
          "ms = format_messages username stamp (take k (messages (snd ?s)))"
      by (auto simp: dash_inv_def)
    then show ?thesis
    proof cases
      case greeting
      with Inr show ?thesis by auto
    next
      case converted
      have "ms = map (\<lambda>i. format_message username (stamp i) (messages (snd ?s) ! i)) [0..<k]"
        using converted by (simp add: format_messages_nth min_absorb2)
      moreover have "distinct [0..<k]" by simp
      moreover have "\<forall>i \<in> set [0..<k]. i < length (messages (snd ?s))"
        using converted(1) by simp
      ultimately have "\<exists>username stamp ixs. distinct ixs \<and>
            (\<forall>i \<in> set ixs. i < length (messages (snd ?s))) \<and>
            ms = map (\<lambda>i. format_message username (stamp i) (messages (snd ?s) ! i)) ixs"
        by blast
      then show ?thesis using Inr by simp
    qed
  qed
  with len show ?thesis by simp
qed

theorem dashboard_holds_each_frame_once_witness:
  "positive_id (Ws (Message env1 (Some frame1))) \<and> positive_id (Ws (Message env2 (Some frame2))) \<and>
   fst (dash_run ''alice'' ''en'' trace_batched dash_initial)
     = Inr [format_message (Some ''alice'') ''0-0'' (stored_message env1 frame1),
            format_message (Some ''alice'') ''0-0'' (stored_message env2 frame2)] \<and>
   length (messages (snd (dash_run ''alice'' ''en'' trace_batched dash_initial))) = 2 \<and>
   fst (dash_run ''alice'' ''en'' trace_each dash_initial) = Inl TypeError \<and>
   (case fst (dash_run ''alice'' ''en'' trace_batched dash_initial) of
       Inl err \<Rightarrow> err = TypeError
     | Inr ms \<Rightarrow>
         (\<exists>username now. ms = [welcome_message username now]) \<or>
         (\<exists>username stamp ixs. distinct ixs \<and>
            (\<forall>i \<in> set ixs. i < length (messages (snd (dash_run ''alice'' ''en'' trace_batched dash_initial)))) \<and>
            ms = map (\<lambda>i. format_message username (stamp i)
                        (messages (snd (dash_run ''alice'' ''en'' trace_batched dash_initial)) ! i)) ixs))"
proof -
  have p: "positive_id (Ws (Message env1 (Some frame1)))" "positive_id (Ws (Message env2 (Some frame2)))"
    by (simp_all add: env1_def env2_def)
  have a: "\<forall>ev \<in> set trace_batched. positive_id ev"
    using p by (simp add: trace_batched_def)
  have f: "js_get frame1 ''type'' = JStr ''message''" "js_get frame2 ''type'' = JStr ''message''"
    by (simp_all add: frame1_def frame2_def)
  have i: "js_get (stored_message env1 frame1) ''id'' = JNum 1704067201000.25"
    "js_get (stored_message env2 frame2) ''id'' = JNum 1704067202000.5"
    by (simp_all add: stored_message_def env1_def env2_def)
  have b: "fst (dash_run ''alice'' ''en'' trace_batched dash_initial)
     = Inr [format_message (Some ''alice'') ''0-0'' (stored_message env1 frame1),
            format_message (Some ''alice'') ''0-0'' (stored_message env2 frame2)]"
    by (simp add: trace_batched_def dash_initial_def initial_def ws_onmessage_def f
        sync_messages_def welcome_message_def format_messages_def enumerate_eq_zip)
  have e: "fst (dash_run ''alice'' ''en'' trace_each dash_initial) = Inl TypeError"
    by (simp add: trace_each_def dash_initial_def initial_def ws_onmessage_def f
        sync_messages_def welcome_message_def format_messages_def enumerate_eq_zip
        format_message_def i js_or_def)
  from dashboard_holds_each_frame_once [OF a, of "''alice''" "''en''"]
  have l: "length (messages (snd (dash_run ''alice'' ''en'' trace_batched dash_initial)))
             = length (filter stores_record trace_batched)"
    and c: "case fst (dash_run ''alice'' ''en'' trace_batched dash_initial) of
       Inl err \<Rightarrow> err = TypeError
     | Inr ms \<Rightarrow>
         (\<exists>username now. ms = [welcome_message username now]) \<or>
         (\<exists>username stamp ixs. distinct ixs \<and>
            (\<forall>i \<in> set ixs. i < length (messages (snd (dash_run ''alice'' ''en'' trace_batched dash_initial)))) \<and>
            ms = map (\<lambda>i. format_message username (stamp i)
                        (messages (snd (dash_run ''alice'' ''en'' trace_batched dash_initial)) ! i)) ixs)"
    by simp_all
  have n: "length (filter stores_record trace_batched) = 2"
    by (simp add: trace_batched_def f)
  from l n have l2: "length (messages (snd (dash_run ''alice'' ''en'' trace_batched dash_initial))) = 2"
    by simp
  show ?thesis
    by (intro conjI p b l2 e c)
qed

section \<open>The join frame\<close>

text \<open>
  C2, as the code has it: \<open>ws.onopen\<close> writes exactly one frame to its socket, an object
  with exactly the fields \<open>user_id\<close> and \<open>language\<close>, in this order; the participant
  identifier is under the key \<open>user_id\<close>.
\<close>

theorem join_frame_user_id:
  "\<exists>fr. frames_on w (ws_onopen userId userLanguage w h) = frames_on w h @ [fr] \<and>
     keys fr = [''user_id'', ''language''] \<and>
     js_get fr ''user_id'' = JStr userId \<and>
     js_get fr ''language'' = JStr userLanguage"
  by (simp add: frames_on_def ws_onopen_def keys_def)

text \<open>
  C2 as stated fails: the join frame of alice has no key \<open>participant_id\<close>.
\<close>

theorem join_frame_no_participant_id:
  "frames_on 0 (ws_onopen ''alice'' ''en'' 0 initial)
     = [[(''user_id'', JStr ''alice''), (''language'', JStr ''en'')]] \<and>
   \<not> (js_get (hd (frames_on 0 (ws_onopen ''alice'' ''en'' 0 initial))) ''participant_id'' = JStr ''alice'')"
  by (simp add: frames_on_def ws_onopen_def initial_def)

section \<open>The chat frame\<close>

text \<open>
  C3, as the code has it: on an open socket \<open>sendMessage(content)\<close> writes one frame with
  exactly the keys \<open>type\<close>, \<open>content\<close> and \<open>timestamp\<close>: type \<open>chat\<close>, the content given,
  and the client's clock as timestamp.
\<close>

theorem chat_frame_shape:
  assumes "socket h = Some w" and "isConnected h"
  shows "\<exists>fr. frames_on w (snd (sendMessage content now h)) = frames_on w h @ [fr] \<and>
     keys fr = [''type'', ''content'', ''timestamp''] \<and>
     js_get fr ''type'' = JStr ''chat'' \<and>
     js_get fr ''content'' = JStr content \<and>
     js_get fr ''timestamp'' = JStr now"
  using assms by (simp add: frames_on_def sendMessage_def keys_def)

theorem chat_frame_shape_witness:
  "socket connected_hook = Some 0 \<and> isConnected connected_hook \<and>
   (\<exists>fr. frames_on 0 (snd (sendMessage ''hi'' ''2024-01-01T00:00:00.000Z'' connected_hook))
       = frames_on 0 connected_hook @ [fr] \<and>
     keys fr = [''type'', ''content'', ''timestamp''] \<and>
     js_get fr ''type'' = JStr ''chat'' \<and>
     js_get fr ''content'' = JStr ''hi'' \<and>
     js_get fr ''timestamp'' = JStr ''2024-01-01T00:00:00.000Z'')"
proof -
  have s: "socket connected_hook = Some 0" and c: "isConnected connected_hook"
    by (simp_all add: connected_hook_def initial_def)
  show ?thesis
    using s c chat_frame_shape [OF s c, of "''hi''" "''2024-01-01T00:00:00.000Z''"] by simp
qed

text \<open>
  C3 as stated fails: the frame of \<open>sendMessage('hi')\<close> has a key other than \<open>type\<close>
  and \<open>content\<close>.
\<close>

theorem chat_frame_has_timestamp:
  "\<not> (set (keys (last (frames_on 0 (snd (sendMessage ''hi'' ''2024-01-01T00:00:00.000Z'' connected_hook)))))
        \<subseteq> {''type'', ''content''})"
  by (simp add: frames_on_def sendMessage_def keys_def connected_hook_def initial_def)

section \<open>Stored messages\<close>

lemma stored_message_fields:
  "keys (stored_message e d) =
     [''id'', ''user_id'', ''content'', ''original_content'', ''language'', ''is_original'', ''timestamp'']"
  "js_get (stored_message e d) ''user_id'' = js_get d ''user_id''"
  "js_get (stored_message e d) ''content'' = js_get d ''content''"
  "js_get (stored_message e d) ''original_content'' = js_get d ''original_content''"
  "js_get (stored_message e d) ''language'' = js_get d ''language''"
  "js_get (stored_message e d) ''is_original'' = js_get d ''is_original''"
  "js_get (stored_message e d) ''sequence'' = JUndefined"
  "js_get (stored_message e d) ''type'' = JUndefined"
  by (simp_all add: stored_message_def keys_def)

lemma message_frames_of_Cons:
  "message_frames_of (ev # evs) = message_frames_of [ev] @ message_frames_of evs"
  by (cases "(ev # evs)" rule: message_frames_of.cases) simp_all

text \<open>One event: a \<open>message\<close> frame adds its record, every other event adds none.\<close>

lemma chat_records_step:
  "chat_records (step u l h ev)
     = chat_records h @ map (\<lambda>ed. stored_message (fst ed) (snd ed)) (message_frames_of [ev])"
proof (cases ev)
  case (Message e dat)
  then show ?thesis
    by (cases dat)
       (simp_all add: chat_records_def ws_onmessage_def stored_message_fields system_message_def)
qed (simp_all add: chat_records_def ws_onopen_def ws_onclose_def ws_onerror_def Let_def)

lemma chat_records_run:
  "chat_records (run u l evs h)
     = chat_records h @ map (\<lambda>ed. stored_message (fst ed) (snd ed)) (message_frames_of evs)"
proof (induction evs arbitrary: h)
  case Nil
  then show ?case by simp
next
  case (Cons ev evs)
  have "chat_records (run u l (ev # evs) h) = chat_records (run u l evs (step u l h ev))"
    by simp
  also have "\<dots> = chat_records (step u l h ev)
                 @ map (\<lambda>ed. stored_message (fst ed) (snd ed)) (message_frames_of evs)"
    by (rule Cons.IH)
  also have "\<dots> = chat_records h
                 @ map (\<lambda>ed. stored_message (fst ed) (snd ed)) (message_frames_of [ev])
                 @ map (\<lambda>ed. stored_message (fst ed) (snd ed)) (message_frames_of evs)"
    by (simp add: chat_records_step)
  also have "\<dots> = chat_records h
                 @ map (\<lambda>ed. stored_message (fst ed) (snd ed)) (message_frames_of (ev # evs))"
    by (subst (2) message_frames_of_Cons) simp
  finally show ?case .
qed

lemma frame_for_sequence:
  "js_get (frame_for translate n ev p) ''sequence'' = JNum (real n)"
  by (simp add: frame_for_def message_frame_def)

lemma frame_for_type:
  "js_get (frame_for translate n ev p) ''type'' = JStr ''message''"
  by (simp add: frame_for_def message_frame_def)

text \<open>The sequence numbers of the frames a participant receives, from \<open>n\<close> on.\<close>

lemma received_sequences:
  "\<exists>ks. sorted ks \<and> (\<forall>k \<in> set ks. n \<le> k) \<and>
        map (\<lambda>fr. js_get fr ''sequence'') (received echo translate n evs p)
          = map (\<lambda>k. JNum (real k)) ks"
proof (induction evs arbitrary: n)
  case Nil
  show ?case by (rule exI [of _ "[]"]) simp
next
  case (Cons ev evs)
  from Cons [of "Suc n"] obtain ks where ks: "sorted ks" "\<forall>k \<in> set ks. Suc n \<le> k"
    "map (\<lambda>fr. js_get fr ''sequence'') (received echo translate (Suc n) evs p)
       = map (\<lambda>k. JNum (real k)) ks"
    by blast
  show ?case
  proof (cases "echo \<or> sender_id ev \<noteq> participant_id p")
    case True
    have "sorted (n # ks)" using ks(1,2) by auto
    moreover have "\<forall>k \<in> set (n # ks). n \<le> k" using ks(2) by auto
    moreover have "map (\<lambda>fr. js_get fr ''sequence'') (received echo translate n (ev # evs) p)
          = map (\<lambda>k. JNum (real k)) (n # ks)"
      using True ks(3) by (simp add: frame_for_sequence)
    ultimately show ?thesis by blast
  next
    case False
    have "\<forall>k \<in> set ks. n \<le> k" using ks(2) by auto
    moreover have "map (\<lambda>fr. js_get fr ''sequence'') (received echo translate n (ev # evs) p)
          = map (\<lambda>k. JNum (real k)) ks"
      using False ks(3) by simp
    ultimately show ?thesis using ks(1) by blast
  qed
qed

text \<open>
  C4, as the code has it: for every participant the \<open>message\<close> frames it receives have
  non-decreasing \<open>sequence\<close> values, in the order the server sends them; the client
  stores one record for each \<open>message\<close> frame it processes, in that order, whatever
  other events come between; a stored record keeps the frame's \<open>user_id\<close>, \<open>content\<close>,
  \<open>original_content\<close>, \<open>language\<close> and \<open>is_original\<close> and has no \<open>sequence\<close> field.
\<close>

theorem sequence_nondecreasing_stored_in_order:
  "(\<exists>ks. sorted ks \<and>
      map (\<lambda>fr. js_get fr ''sequence'') (received echo translate n evs p) = map (\<lambda>k. JNum (real k)) ks) \<and>
   (map snd (message_frames_of wevs) = received echo translate n evs p \<longrightarrow>
      (\<exists>ks. sorted ks \<and>
         map (\<lambda>ed. js_get (snd ed) ''sequence'') (message_frames_of wevs) = map (\<lambda>k. JNum (real k)) ks)) \<and>
   chat_records (run u l wevs h)
     = chat_records h @ map (\<lambda>ed. stored_message (fst ed) (snd ed)) (message_frames_of wevs) \<and>
   map (\<lambda>ed. js_get (stored_message (fst ed) (snd ed)) ''user_id'') (message_frames_of wevs)
     = map (\<lambda>ed. js_get (snd ed) ''user_id'') (message_frames_of wevs) \<and>
   map (\<lambda>ed. js_get (stored_message (fst ed) (snd ed)) ''content'') (message_frames_of wevs)
     = map (\<lambda>ed. js_get (snd ed) ''content'') (message_frames_of wevs) \<and>
   map (\<lambda>ed. js_get (stored_message (fst ed) (snd ed)) ''original_content'') (message_frames_of wevs)
     = map (\<lambda>ed. js_get (snd ed) ''original_content'') (message_frames_of wevs) \<and>
   map (\<lambda>ed. js_get (stored_message (fst ed) (snd ed)) ''language'') (message_frames_of wevs)
     = map (\<lambda>ed. js_get (snd ed) ''language'') (message_frames_of wevs) \<and>
   map (\<lambda>ed. js_get (stored_message (fst ed) (snd ed)) ''is_original'') (message_frames_of wevs)
     = map (\<lambda>ed. js_get (snd ed) ''is_original'') (message_frames_of wevs) \<and>
   list_all (\<lambda>ed. ''sequence'' \<notin> set (keys (stored_message (fst ed) (snd ed)))) (message_frames_of wevs)"
proof -
  obtain ks where ks: "sorted ks"
    "map (\<lambda>fr. js_get fr ''sequence'') (received echo translate n evs p) = map (\<lambda>k. JNum (real k)) ks"
    using received_sequences [of n echo translate evs p] by blast
  have a: "\<exists>ks. sorted ks \<and>
      map (\<lambda>fr. js_get fr ''sequence'') (received echo translate n evs p) = map (\<lambda>k. JNum (real k)) ks"
    using ks by blast
  have b: "map snd (message_frames_of wevs) = received echo translate n evs p \<longrightarrow>
      (\<exists>ks. sorted ks \<and>
         map (\<lambda>ed. js_get (snd ed) ''sequence'') (message_frames_of wevs) = map (\<lambda>k. JNum (real k)) ks)"
  proof
    assume r: "map snd (message_frames_of wevs) = received echo translate n evs p"
    have "map (\<lambda>ed. js_get (snd ed) ''sequence'') (message_frames_of wevs)
            = map (\<lambda>fr. js_get fr ''sequence'') (map snd (message_frames_of wevs))"
      by (simp add: comp_def)
    also have "\<dots> = map (\<lambda>k. JNum (real k)) ks"
      by (simp only: r ks(2))
    finally show "\<exists>ks. sorted ks \<and>
         map (\<lambda>ed. js_get (snd ed) ''sequence'') (message_frames_of wevs) = map (\<lambda>k. JNum (real k)) ks"
      using ks(1) by blast
  qed
  have c: "chat_records (run u l wevs h)
     = chat_records h @ map (\<lambda>ed. stored_message (fst ed) (snd ed)) (message_frames_of wevs)"
    by (rule chat_records_run)
  have d: "list_all (\<lambda>ed. ''sequence'' \<notin> set (keys (stored_message (fst ed) (snd ed)))) (message_frames_of wevs)"
    by (simp add: list_all_iff stored_message_fields)
  show ?thesis
    by (intro conjI a b c d) (simp_all add: stored_message_fields)
qed

theorem sequence_nondecreasing_stored_in_order_witness:
  "map snd (message_frames_of spanish_trace) = received False to_spanish 0 [hello_event, bye_event] reader_es \<and>
   map (\<lambda>ed. js_get (snd ed) ''sequence'') (message_frames_of spanish_trace) = [JNum 0, JNum 1] \<and>
   (\<exists>ks. sorted ks \<and>
      map (\<lambda>ed. js_get (snd ed) ''sequence'') (message_frames_of spanish_trace) = map (\<lambda>k. JNum (real k)) ks) \<and>
   chat_records (run ''p2'' ''es'' spanish_trace initial)
     = chat_records initial @ map (\<lambda>ed. stored_message (fst ed) (snd ed)) (message_frames_of spanish_trace) \<and>
   map (\<lambda>m. js_get m ''content'') (chat_records (run ''p2'' ''es'' spanish_trace initial))
     = [JStr ''Hola'', JStr ''Adios''] \<and>
   map (\<lambda>m. js_get m ''sequence'') (chat_records (run ''p2'' ''es'' spanish_trace initial))
     = [JUndefined, JUndefined]"
proof -
  let ?f1 = "frame_for to_spanish 0 hello_event reader_es"
  let ?f2 = "frame_for to_spanish 1 bye_event reader_es"
  have t: "js_get bob_joined ''type'' = JStr ''user_joined''"
    by (simp add: bob_joined_def)
  have m: "message_frames_of spanish_trace = [(env1, ?f1), (env2, ?f2)]"
    by (simp add: spanish_trace_def t frame_for_type)
  have r: "received False to_spanish 0 [hello_event, bye_event] reader_es = [?f1, ?f2]"
    by (simp add: hello_event_def bye_event_def reader_es_def)
  have h: "map snd (message_frames_of spanish_trace)
             = received False to_spanish 0 [hello_event, bye_event] reader_es"
    unfolding m r by simp
  have s: "map (\<lambda>ed. js_get (snd ed) ''sequence'') (message_frames_of spanish_trace) = [JNum 0, JNum 1]"
    by (simp add: m frame_for_def message_frame_def)
  note inst = sequence_nondecreasing_stored_in_order
    [of False to_spanish 0 "[hello_event, bye_event]" reader_es spanish_trace "''p2''" "''es''" initial]
  from inst h have k: "\<exists>ks. sorted ks \<and>
      map (\<lambda>ed. js_get (snd ed) ''sequence'') (message_frames_of spanish_trace) = map (\<lambda>k. JNum (real k)) ks"
    by blast
  from inst have c: "chat_records (run ''p2'' ''es'' spanish_trace initial)
     = chat_records initial @ map (\<lambda>ed. stored_message (fst ed) (snd ed)) (message_frames_of spanish_trace)"
    by blast
  have i: "chat_records initial = []"
    by (simp add: chat_records_def initial_def)
  have o: "map (\<lambda>m. js_get m ''content'') (chat_records (run ''p2'' ''es'' spanish_trace initial))
     = [JStr ''Hola'', JStr ''Adios'']"
    by (simp add: c i m stored_message_def frame_for_def message_frame_def derive_def
        hello_event_def bye_event_def reader_es_def to_spanish_def)
  have q: "map (\<lambda>m. js_get m ''sequence'') (chat_records (run ''p2'' ''es'' spanish_trace initial))
     = [JUndefined, JUndefined]"
    by (simp add: c i m stored_message_def)
  show ?thesis
    by (intro conjI h s k c o q)
qed

text \<open>
  C4 as stated fails: the record stored for a frame with \<open>sequence\<close> 1 does not hold
  the frame's \<open>sequence\<close>.
\<close>

theorem stored_message_drops_sequence:
  "js_get frame1 ''sequence'' = JNum 1 \<and>
   \<not> (js_get (last (messages (ws_onmessage env1 (Some frame1) initial))) ''sequence''
        = js_get frame1 ''sequence'')"
  by (simp add: frame1_def ws_onmessage_def stored_message_def initial_def)

section \<open>A reader of the sender's language\<close>

text \<open>
  C5: a participant whose declared language is the sender's original language receives a
  \<open>message\<close> frame with \<open>is_original\<close> true and \<open>content\<close> equal to \<open>original_content\<close>,
  and for the record the hook stores of it the dashboard does not render the
  \<open>Original:\<close> line.
\<close>

theorem same_language_original:
  assumes "declared_language p = original_language ev"
  shows "js_get (frame_for translate seq ev p) ''is_original'' = JBool True \<and>
         js_get (frame_for translate seq ev p) ''content''
           = js_get (frame_for translate seq ev p) ''original_content'' \<and>
         \<not> shows_original_line (last (messages (ws_onmessage e (Some (frame_for translate seq ev p)) h)))"
  using assms
  by (simp add: frame_for_def derive_def message_frame_def ws_onmessage_def stored_message_def
      shows_original_line_def)

theorem same_language_original_witness:
  "declared_language reader_en = original_language hello_event \<and>
   js_get (frame_for (\<lambda>t s l. Some ''Hola'') 1 hello_event reader_en) ''is_original'' = JBool True \<and>
   js_get (frame_for (\<lambda>t s l. Some ''Hola'') 1 hello_event reader_en) ''content'' = JStr ''Hello'' \<and>
   \<not> shows_original_line (last (messages (ws_onmessage env1
       (Some (frame_for (\<lambda>t s l. Some ''Hola'') 1 hello_event reader_en)) initial)))"
proof -
  have l: "declared_language reader_en = original_language hello_event"
    by (simp add: hello_event_def reader_en_def)
  have c: "js_get (frame_for (\<lambda>t s l. Some ''Hola'') 1 hello_event reader_en) ''original_content''
             = JStr ''Hello''"
    by (simp add: frame_for_def message_frame_def hello_event_def)
  show ?thesis
    using l c same_language_original [OF l, of "\<lambda>t s l. Some ''Hola''" 1 env1 initial]
    by simp
qed

section \<open>Sending a text message from the dashboards\<close>

text \<open>
  \<open>trim\<close> on plain text, on white space beyond ASCII (U+00A0; U+0020, U+3000, U+FEFF and
  a line feed), and on a letter whose encoding ends in the byte A0.
\<close>

lemma trim_examples:
  "trim ''hello'' = ''hello''"
  "trim ''  hi there  '' = ''hi there''"
  "trim [CHR 0xC2, CHR 0xA0] = []"
  "trim [CHR 0x20, CHR 0xE3, CHR 0x80, CHR 0x80, CHR 0xEF, CHR 0xBB, CHR 0xBF, CHR 0x0A] = []"
  "trim [CHR 0xC3, CHR 0xA0, CHR 0x20] = [CHR 0xC3, CHR 0xA0]"
  by (simp_all add: trim_def strip_leading.simps js_whitespace_utf8_def)

text \<open>A text of one no-break space is blank: \<open>sendTextMessage\<close> returns at its guard.\<close>

lemma sendTextMessage_blank:
  "sendTextMessage [CHR 0xC2, CHR 0xA0] now (d, h) = (d, h)"
  by (simp add: sendTextMessage_def trim_examples)




section \<open>The roster\<close>

lemma roomUsers_user_joined:
  "js_get d ''type'' = JStr ''user_joined'' \<Longrightarrow>
   roomUsers (ws_onmessage e (Some d) h) = user_joined_roster (roomUsers h) d"
  by (simp add: ws_onmessage_def)

lemma roomUsers_user_left:
  "js_get d ''type'' = JStr ''user_left'' \<Longrightarrow>
   roomUsers (ws_onmessage e (Some d) h) = user_left_roster (roomUsers h) d"
  by (simp add: ws_onmessage_def)

lemma user_joined_roster_idem:
  "user_joined_roster (user_joined_roster r d) d = user_joined_roster r d"
proof (cases "find (\<lambda>u. js_get u ''user_id'' = js_get d ''user_id'') r")
  case None
  then show ?thesis
    by (simp add: user_joined_roster_def find_append_cases)
next
  case (Some u)
  then show ?thesis by (simp add: user_joined_roster_def)
qed

lemma user_joined_roster_distinct:
  assumes "distinct (map (\<lambda>u. js_get u ''user_id'') r)"
  shows "distinct (map (\<lambda>u. js_get u ''user_id'') (user_joined_roster r d))"
proof (cases "find (\<lambda>u. js_get u ''user_id'' = js_get d ''user_id'') r")
  case None
  then have "\<forall>u\<in>set r. js_get u ''user_id'' \<noteq> js_get d ''user_id''"
    by (auto simp: find_None_iff)
  with assms None show ?thesis
    by (auto simp: user_joined_roster_def)
next
  case (Some u)
  with assms show ?thesis by (simp add: user_joined_roster_def)
qed

text \<open>
  C7: processing a \<open>user_joined\<close> frame twice leaves the roster as processing it once
  does, and a roster without two entries of one \<open>user_id\<close> has none afterwards.
\<close>

theorem user_joined_idempotent_unique:
  assumes "js_get d ''type'' = JStr ''user_joined''"
  shows "roomUsers (ws_onmessage e2 (Some d) (ws_onmessage e1 (Some d) h))
           = roomUsers (ws_onmessage e1 (Some d) h) \<and>
         (distinct (map (\<lambda>u. js_get u ''user_id'') (roomUsers h)) \<longrightarrow>
          distinct (map (\<lambda>u. js_get u ''user_id'') (roomUsers (ws_onmessage e1 (Some d) h))))"
  using assms
  by (simp add: roomUsers_user_joined user_joined_roster_idem user_joined_roster_distinct)

theorem user_joined_idempotent_unique_witness:
  "js_get bob_joined ''type'' = JStr ''user_joined'' \<and>
   distinct (map (\<lambda>u. js_get u ''user_id'') (roomUsers roster_alice)) \<and>
   roomUsers (ws_onmessage env1 (Some bob_joined) roster_alice)
     = [[(''user_id'', JStr ''alice''), (''language'', JStr ''en'')],
        [(''user_id'', JStr ''bob''), (''language'', JStr ''es'')]] \<and>
   roomUsers (ws_onmessage env2 (Some bob_joined) (ws_onmessage env1 (Some bob_joined) roster_alice))
     = roomUsers (ws_onmessage env1 (Some bob_joined) roster_alice) \<and>
   distinct (map (\<lambda>u. js_get u ''user_id'') (roomUsers (ws_onmessage env1 (Some bob_joined) roster_alice)))"
proof -
  have t: "js_get bob_joined ''type'' = JStr ''user_joined''"
    by (simp add: bob_joined_def)
  have d: "distinct (map (\<lambda>u. js_get u ''user_id'') (roomUsers roster_alice))"
    by (simp add: roster_alice_def initial_def)
  have r: "roomUsers (ws_onmessage env1 (Some bob_joined) roster_alice)
     = [[(''user_id'', JStr ''alice''), (''language'', JStr ''en'')],
        [(''user_id'', JStr ''bob''), (''language'', JStr ''es'')]]"
    by (simp add: ws_onmessage_def user_joined_roster_def bob_joined_def roster_alice_def initial_def)
  show ?thesis
    using t d r user_joined_idempotent_unique [OF t, of env2 env1 roster_alice] by simp
qed

text \<open>
  C8: after a \<open>user_left\<close> frame for \<open>p\<close> no entry of the roster has the \<open>user_id\<close> \<open>p\<close>,
  and the entries with another \<open>user_id\<close> are the ones from before, in the same order.
\<close>

theorem user_left_removes_exactly:
  assumes "js_get d ''type'' = JStr ''user_left''"
  shows "(\<forall>u \<in> set (roomUsers (ws_onmessage e (Some d) h)). js_get u ''user_id'' \<noteq> js_get d ''user_id'') \<and>
         filter (\<lambda>u. js_get u ''user_id'' \<noteq> js_get d ''user_id'') (roomUsers (ws_onmessage e (Some d) h))
         = filter (\<lambda>u. js_get u ''user_id'' \<noteq> js_get d ''user_id'') (roomUsers h)"
  using assms by (simp add: roomUsers_user_left user_left_roster_def)

theorem user_left_removes_exactly_witness:
  "js_get alice_left ''type'' = JStr ''user_left'' \<and>
   roomUsers (ws_onmessage env1 (Some bob_joined) roster_alice)
     = [[(''user_id'', JStr ''alice''), (''language'', JStr ''en'')],
        [(''user_id'', JStr ''bob''), (''language'', JStr ''es'')]] \<and>
   roomUsers (ws_onmessage env2 (Some alice_left) (ws_onmessage env1 (Some bob_joined) roster_alice))
     = [[(''user_id'', JStr ''bob''), (''language'', JStr ''es'')]] \<and>
   filter (\<lambda>u. js_get u ''user_id'' \<noteq> js_get alice_left ''user_id'')
     (roomUsers (ws_onmessage env2 (Some alice_left) (ws_onmessage env1 (Some bob_joined) roster_alice)))
     = filter (\<lambda>u. js_get u ''user_id'' \<noteq> js_get alice_left ''user_id'')
         (roomUsers (ws_onmessage env1 (Some bob_joined) roster_alice))"
proof -
  have t: "js_get alice_left ''type'' = JStr ''user_left''"
    by (simp add: alice_left_def)
  have r: "roomUsers (ws_onmessage env1 (Some bob_joined) roster_alice)
     = [[(''user_id'', JStr ''alice''), (''language'', JStr ''en'')],
        [(''user_id'', JStr ''bob''), (''language'', JStr ''es'')]]"
    by (simp add: ws_onmessage_def user_joined_roster_def bob_joined_def roster_alice_def initial_def)
  have l: "roomUsers (ws_onmessage env2 (Some alice_left) (ws_onmessage env1 (Some bob_joined) roster_alice))
     = [[(''user_id'', JStr ''bob''), (''language'', JStr ''es'')]]"
  proof -
    have "roomUsers (ws_onmessage env2 (Some alice_left) (ws_onmessage env1 (Some bob_joined) roster_alice))
       = user_left_roster (roomUsers (ws_onmessage env1 (Some bob_joined) roster_alice)) alice_left"
      by (rule roomUsers_user_left [OF t])
    then show ?thesis
      by (simp add: r user_left_roster_def alice_left_def)
  qed
  have f: "filter (\<lambda>u. js_get u ''user_id'' \<noteq> js_get alice_left ''user_id'')
     (roomUsers (ws_onmessage env2 (Some alice_left) (ws_onmessage env1 (Some bob_joined) roster_alice)))
     = filter (\<lambda>u. js_get u ''user_id'' \<noteq> js_get alice_left ''user_id'')
         (roomUsers (ws_onmessage env1 (Some bob_joined) roster_alice))"
    using user_left_removes_exactly [OF t, of env2 "ws_onmessage env1 (Some bob_joined) roster_alice"]
    by (rule conjunct2)
  show ?thesis
    by (intro conjI t r l f)
qed

section \<open>Reconnection\<close>

lemma step_no_open:
  assumes "no_open ev"
  shows "reconnectAttempts (step u l h ev)
           = (if abnormal_close ev \<and> reconnectAttempts h < 5 then Suc (reconnectAttempts h)
              else reconnectAttempts h)"
    and "timers (step u l h ev)
           = (if abnormal_close ev \<and> reconnectAttempts h < 5
              then timers h @ [2000 * Suc (reconnectAttempts h)] else timers h)"
  using assms
  by (cases ev; simp add: ws_onclose_def ws_onmessage_def ws_onerror_def maxReconnectAttempts_def
      Let_def split: option.splits)+

lemma upt_schedule_step:
  assumes "a < (5::nat)"
  shows "[Suc a ..< Suc (min 5 (a + Suc m))] = Suc a # [Suc (Suc a) ..< Suc (min 5 (Suc a + m))]"
proof -
  have "Suc a < Suc (min 5 (Suc a + m))" using assms by simp
  then have "[Suc a ..< Suc (min 5 (Suc a + m))] = Suc a # [Suc (Suc a) ..< Suc (min 5 (Suc a + m))]"
    by (rule upt_conv_Cons)
  then show ?thesis by simp
qed

lemma upt_schedule_full:
  assumes "\<not> a < (5::nat)"
  shows "[Suc a ..< Suc (min 5 (a + m))] = []"
  using assms by simp

text \<open>
  While no socket opens, the delays scheduled from a counter value \<open>a\<close> are
  \<open>2000 * (a + 1)\<close>, \<open>2000 * (a + 2)\<close>, ... up to \<open>2000 * 5\<close>, one per abnormal close.
\<close>

lemma timers_run_no_open:
  "\<forall>ev \<in> set evs. no_open ev \<Longrightarrow>
   timers (run u l evs h) = timers h @ map (\<lambda>n. 2000 * n)
     [Suc (reconnectAttempts h) ..< Suc (min 5 (reconnectAttempts h + length (filter abnormal_close evs)))]"
proof (induction evs arbitrary: h)
  case Nil
  then show ?case by simp
next
  case (Cons ev evs)
  define a where "a = reconnectAttempts h"
  define m where "m = length (filter abnormal_close evs)"
  have ev: "no_open ev" using Cons.prems by simp
  have ih: "timers (run u l evs (step u l h ev)) = timers (step u l h ev) @ map (\<lambda>n. 2000 * n)
     [Suc (reconnectAttempts (step u l h ev)) ..< Suc (min 5 (reconnectAttempts (step u l h ev) + m))]"
    unfolding m_def using Cons by simp
  show ?case
  proof (cases "abnormal_close ev")
    case True
    note ab = True
    show ?thesis
    proof (cases "a < 5")
      case True
      have r: "reconnectAttempts (step u l h ev) = Suc a"
        and t: "timers (step u l h ev) = timers h @ [2000 * Suc a]"
        using ab True by (simp_all add: step_no_open [OF ev] a_def)
      have "timers (run u l (ev # evs) h) = timers h @ [2000 * Suc a] @ map (\<lambda>n. 2000 * n)
          [Suc (Suc a) ..< Suc (min 5 (Suc a + m))]"
        using ih by (simp add: r t)
      also have "\<dots> = timers h @ map (\<lambda>n. 2000 * n) [Suc a ..< Suc (min 5 (a + Suc m))]"
        by (simp only: upt_schedule_step [OF True] list.map append_Cons append_Nil)
      finally show ?thesis using ab by (simp add: a_def m_def)
    next
      case False
      have r: "reconnectAttempts (step u l h ev) = a"
        and t: "timers (step u l h ev) = timers h"
        using False by (simp_all add: step_no_open [OF ev] a_def)
      have "timers (run u l (ev # evs) h) = timers h @ map (\<lambda>n. 2000 * n)
          [Suc a ..< Suc (min 5 (a + m))]"
        using ih by (simp add: r t)
      then show ?thesis
        using upt_schedule_full [OF False, of m] upt_schedule_full [OF False, of "Suc m"] ab
        by (simp add: a_def m_def)
    qed
  next
    case False
    have r: "reconnectAttempts (step u l h ev) = a"
      and t: "timers (step u l h ev) = timers h"
      using False by (simp_all add: step_no_open [OF ev] a_def)
    have "timers (run u l (ev # evs) h) = timers h @ map (\<lambda>n. 2000 * n)
        [Suc a ..< Suc (min 5 (a + m))]"
      using ih by (simp add: r t)
    then show ?thesis using False by (simp add: a_def m_def)
  qed
qed

text \<open>
  C9, as the code has it: a close with code 1000 schedules nothing; after an open, and
  while no socket opens again, the closes with another code schedule at most 5
  reconnection attempts, the n-th delayed by 2000 * n milliseconds: the delays are
  2000, 4000, ... for the first 5 such closes and none after. Every open resets the
  count.
\<close>

theorem reconnect_schedule:
  assumes "\<forall>ev \<in> set evs. no_open ev"
  shows "timers (ws_onclose 1000 h) = timers h \<and>
         timers (run u l evs (ws_onopen u l w h)) = timers h @ map (\<lambda>n. 2000 * n)
           [1 ..< Suc (min 5 (length (filter abnormal_close evs)))]"
proof -
  have "timers (ws_onclose 1000 h) = timers h"
    by (simp add: ws_onclose_def)
  moreover have "timers (run u l evs (ws_onopen u l w h)) = timers h @ map (\<lambda>n. 2000 * n)
           [1 ..< Suc (min 5 (length (filter abnormal_close evs)))]"
    using timers_run_no_open [OF assms, of u l "ws_onopen u l w h"]
    by (simp add: ws_onopen_def)
  ultimately show ?thesis by simp
qed

theorem reconnect_schedule_witness:
  "no_open (Close 1006) \<and> no_open (Close 1000) \<and> no_open Error \<and>
   timers (run ''alice'' ''en''
     [Close 1006, Close 1006, Close 1000, Error, Close 1006, Close 1006, Close 1006, Close 1006, Close 1006]
     (ws_onopen ''alice'' ''en'' 0 initial)) = [2000, 4000, 6000, 8000, 10000]"
proof -
  have n: "\<forall>ev \<in> set [Close 1006, Close 1006, Close 1000, Error, Close 1006, Close 1006,
      Close 1006, Close 1006, Close 1006]. no_open ev"
    by simp
  have u: "[1 ..< Suc 5] = [1, 2, 3, 4, 5]"
    by (simp add: upt_conv_Cons)
  have t: "timers initial = []" by (simp add: initial_def)
  show ?thesis
    using reconnect_schedule [OF n, of initial "''alice''" "''en''" 0] u t by simp
qed

text \<open>
  C9 as stated fails: when every reconnection succeeds and the socket closes again, six
  closes with code 1006 schedule six attempts, each delayed by 2000 milliseconds.
\<close>

theorem reconnect_more_than_five:
  "\<not> (length (timers (run ''alice'' ''en''
        [Close 1006, Open 1, Close 1006, Open 2, Close 1006, Open 3,
         Close 1006, Open 4, Close 1006, Open 5, Close 1006, Open 6]
        (ws_onopen ''alice'' ''en'' 0 initial))) \<le> 5) \<and>
   timers (run ''alice'' ''en''
        [Close 1006, Open 1, Close 1006, Open 2, Close 1006, Open 3,
         Close 1006, Open 4, Close 1006, Open 5, Close 1006, Open 6]
        (ws_onopen ''alice'' ''en'' 0 initial)) = [2000, 2000, 2000, 2000, 2000, 2000]"
  by (simp add: ws_onclose_def ws_onopen_def initial_def maxReconnectAttempts_def)

section \<open>The guard of sendMessage\<close>



end
